theory Spec2Isabelle
  imports Main
begin

section \<open>Python strings\<close>

text \<open>
  A Python \<^verbatim>\<open>str\<close> is a sequence of Unicode code points; a character is the
  number of its code point. \<open>str\<close> turns an ASCII literal into such a sequence.
\<close>

type_synonym pystr = "nat list"

definition str :: "string \<Rightarrow> pystr" where
  "str s = map of_char s"

text \<open>
  \<^verbatim>\<open>str.isspace\<close>, \<^verbatim>\<open>str.strip()\<close> and the class \<^verbatim>\<open>\s\<close> of a \<^verbatim>\<open>str\<close>
  pattern share CPython's whitespace table: U+0009..U+000D, U+001C..U+0020, U+0085,
  U+00A0, U+1680, U+2000..U+200A, U+2028, U+2029, U+202F, U+205F, U+3000.
\<close>

definition isspace :: "nat \<Rightarrow> bool" where
  "isspace c = ((9 \<le> c \<and> c \<le> 13) \<or> (28 \<le> c \<and> c \<le> 32) \<or> c = 133 \<or> c = 160
     \<or> c = 5760 \<or> (8192 \<le> c \<and> c \<le> 8202) \<or> c = 8232 \<or> c = 8233 \<or> c = 8239
     \<or> c = 8287 \<or> c = 12288)"

text \<open>\<^verbatim>\<open>text.strip()\<close>: whitespace is removed at both ends.\<close>

definition strip :: "pystr \<Rightarrow> pystr" where
  "strip t = rev (dropWhile isspace (rev (dropWhile isspace t)))"

section \<open>Regular expressions\<close>

text \<open>
  The patterns of the module, as Python's backtracking matcher reads them. A character
  class is a predicate on code points. \<open>Rep r lo hi greedy\<close> is \<^verbatim>\<open>r{lo,hi}\<close>
  (\<open>hi = None\<close>: no upper bound), lazy when \<open>greedy\<close> is false; \<open>NotAhead r\<close> is
  \<^verbatim>\<open>(?!r)\<close>, \<open>NotBehind p\<close> is \<^verbatim>\<open>(?<!c)\<close> for a one-character class, and
  \<open>Bol\<close> is \<^verbatim>\<open>^\<close> under \<^verbatim>\<open>re.MULTILINE\<close>. Groups capture nothing that the
  module reads, so they are not represented.
\<close>

datatype re =
    Ch "nat \<Rightarrow> bool"
  | Seq re re
  | Rep re nat "nat option" bool
  | NotAhead re
  | NotBehind "nat \<Rightarrow> bool"
  | Bol

definition lit :: "string \<Rightarrow> nat \<Rightarrow> bool" where
  "lit s c = (c \<in> set (str s))"

definition dot :: "nat \<Rightarrow> bool" where
  "dot c = (c \<noteq> 10)"

text \<open>
  \<open>iter f greedy lo hi fuel n i\<close>: the end positions of the repetition of a body whose
  end positions from \<open>j\<close> are \<open>f j\<close>, after \<open>n\<close> rounds, standing at \<open>i\<close>, in the order
  in which backtracking tries them: a greedy repetition tries one more round first, a
  lazy one tries to stop first. Every round moves forward, so \<open>fuel\<close>, the number of
  characters left, bounds the rounds.
\<close>

fun iter :: "(nat \<Rightarrow> nat list) \<Rightarrow> bool \<Rightarrow> nat \<Rightarrow> nat option \<Rightarrow> nat \<Rightarrow> nat \<Rightarrow> nat \<Rightarrow> nat list" where
  "iter f greedy lo hi 0 n i = (if lo \<le> n then [i] else [])"
| "iter f greedy lo hi (Suc fuel) n i =
     (let more = (if (case hi of None \<Rightarrow> True | Some h \<Rightarrow> n < h)
                  then concat (map (iter f greedy lo hi fuel (Suc n)) (filter (\<lambda>j. i < j) (f i)))
                  else []);
          stop = (if lo \<le> n then [i] else [])
      in if greedy then more @ stop else stop @ more)"

text \<open>
  \<open>ends r t i\<close>: the positions at which a match of \<open>r\<close> that starts at position \<open>i\<close>
  of \<open>t\<close> can end, in backtracking order; the matcher takes the first.
\<close>

primrec ends :: "re \<Rightarrow> pystr \<Rightarrow> nat \<Rightarrow> nat list" where
  "ends (Ch p) t i = (if i < length t \<and> p (t ! i) then [Suc i] else [])"
| "ends (Seq a b) t i = concat (map (ends b t) (ends a t i))"
| "ends (Rep r lo hi greedy) t i = iter (ends r t) greedy lo hi (length t - i) 0 i"
| "ends (NotAhead r) t i = (if ends r t i = [] then [i] else [])"
| "ends (NotBehind p) t i = (if 0 < i \<and> p (t ! (i - 1)) then [] else [i])"
| "ends Bol t i = (if i = 0 \<or> t ! (i - 1) = 10 then [i] else [])"

text \<open>
  The scan of \<^verbatim>\<open>re.sub\<close>: from the left, the first position where the pattern matches
  gives a match, and the scan goes on behind it; a character no match covers is kept.
  No pattern of the module matches the empty string; after an empty match the scan moves
  one character on.
\<close>

datatype seg = Keep nat | Match pystr

function re_scan :: "re \<Rightarrow> pystr \<Rightarrow> nat \<Rightarrow> seg list" where
  "re_scan r t i =
     (if length t < i then []
      else case ends r t i of
          j # _ \<Rightarrow>
            Match (take (j - i) (drop i t)) #
              (if i < j then re_scan r t j
               else if i < length t then Keep (t ! i) # re_scan r t (Suc i) else [])
        | [] \<Rightarrow> (if i < length t then Keep (t ! i) # re_scan r t (Suc i) else []))"
  by pat_completeness auto
termination
  by (relation "measure (\<lambda>(r, t, i). Suc (length t) - i)") auto

declare re_scan.simps [simp del]

text \<open>\<^verbatim>\<open>re.sub(pattern, repl, text)\<close> with a string \<open>repl\<close>.\<close>

fun render :: "pystr \<Rightarrow> seg \<Rightarrow> pystr" where
  "render repl (Keep c) = [c]"
| "render repl (Match m) = repl"

definition re_sub :: "re \<Rightarrow> pystr \<Rightarrow> pystr \<Rightarrow> pystr" where
  "re_sub r repl t = concat (map (render repl) (re_scan r t 0))"

text \<open>\<^verbatim>\<open>re.sub(r"\s+", " ", text).strip()\<close>, the last step of most stages.\<close>

definition ws_run :: re where
  "ws_run = Rep (Ch isspace) 1 None True"

definition clean_spaces :: "pystr \<Rightarrow> pystr" where
  "clean_spaces t = strip (re_sub ws_run (str '' '') t)"

section \<open>Values and exceptions\<close>

text \<open>
  The functions are annotated \<^verbatim>\<open>text: str\<close>, and Python does not enforce it:
  \<^verbatim>\<open>_filter_nested\<close> itself tests \<^verbatim>\<open>isinstance(text, str)\<close>. A value is a string
  or some other object.

  An exception is the \<^verbatim>\<open>TypeError\<close> that the source raises with its message, the
  \<^verbatim>\<open>TypeError\<close> that \<^verbatim>\<open>re.sub\<close> and \<^verbatim>\<open>unicodedata.normalize\<close> raise on an
  argument that is not a string, or any other exception:
  \<open>Raised is_exception name str_raises\<close>, where \<open>is_exception\<close> tells whether it is an
  instance of \<^verbatim>\<open>Exception\<close> (the class the handlers of \<^verbatim>\<open>tts_filter\<close> catch) and
  \<open>str_raises\<close> is what its \<^verbatim>\<open>__str__\<close> raises, if it raises: an f-string
  \<^verbatim>\<open>f"...{e}"\<close> calls it.

  An object that is not a string is \<open>PyObj id format_raises\<close>: a number that names it
  and what formatting it in an f-string \<^verbatim>\<open>f"...{text}"\<close> raises, if it raises.
  Formatting a string never raises.
\<close>

datatype exn = TypeError string | LibTypeError | Raised bool string "exn option"

datatype pyval = PyStr pystr | PyObj nat "exn option"

section \<open>The nested-span stripper\<close>

text \<open>
  The loop of \<^verbatim>\<open>_filter_nested\<close> over the characters of the text; the state is
  \<open>(result, depth)\<close>. \<^verbatim>\<open>left\<close> and \<^verbatim>\<open>right\<close> are strings, compared with the
  one-character string \<^verbatim>\<open>char\<close>.
\<close>

fun nested_loop :: "pystr \<Rightarrow> pystr \<Rightarrow> pystr \<Rightarrow> pystr \<times> nat \<Rightarrow> pystr \<times> nat" where
  "nested_loop [] left right (result, depth) = (result, depth)"
| "nested_loop (char # rest) left right (result, depth) =
     nested_loop rest left right
       (if [char] = left then (result, depth + 1)
        else if [char] = right then (if depth > 0 then (result, depth - 1) else (result, depth))
        else (if depth = 0 then (result @ [char], depth) else (result, depth)))"

definition filter_nested :: "pyval \<Rightarrow> pystr \<Rightarrow> pystr \<Rightarrow> exn + pyval" where
  "filter_nested text left right =
     (case text of
        PyObj x fr \<Rightarrow> Inl (TypeError ''Input must be a string'')
      | PyStr t \<Rightarrow>
          if t = [] then Inr text
          else Inr (PyStr (clean_spaces (fst (nested_loop t left right ([], 0))))))"

definition filter_brackets :: "pyval \<Rightarrow> exn + pyval" where
  "filter_brackets text = filter_nested text (str ''['') (str '']'')"

definition filter_parentheses :: "pyval \<Rightarrow> exn + pyval" where
  "filter_parentheses text = filter_nested text (str ''('') (str '')'')"

definition filter_angle_brackets :: "pyval \<Rightarrow> exn + pyval" where
  "filter_angle_brackets text = filter_nested text (str ''<'') (str ''>'')"

section \<open>The asterisk span remover\<close>

text \<open>The pattern \<^verbatim>\<open>\*{1,}((?!\*).)*?\*{1,}\<close>.\<close>

definition asterisk_span :: re where
  "asterisk_span =
     Seq (Rep (Ch (lit ''*'')) 1 None True)
       (Seq (Rep (Seq (NotAhead (Ch (lit ''*''))) (Ch dot)) 0 None False)
            (Rep (Ch (lit ''*'')) 1 None True))"

definition filter_asterisks :: "pyval \<Rightarrow> exn + pyval" where
  "filter_asterisks text =
     (case text of
        PyObj x fr \<Rightarrow> Inl LibTypeError
      | PyStr t \<Rightarrow> Inr (PyStr (clean_spaces (re_sub asterisk_span [] t))))"

section \<open>The Unicode category filter\<close>

text \<open>
  The Unicode character database belongs to Python's library, not to the module: the
  general category of a code point (\<^verbatim>\<open>unicodedata.category\<close>, a two-letter name) and
  the normalisation \<^verbatim>\<open>unicodedata.normalize("NFKC", _)\<close> are parameters.
\<close>

record unicode =
  category :: "nat \<Rightarrow> string"
  nfkc :: "pystr \<Rightarrow> pystr"

definition startswith :: "string \<Rightarrow> string \<Rightarrow> bool" where
  "startswith s p = (take (length p) s = p)"

definition is_valid_char :: "unicode \<Rightarrow> nat \<Rightarrow> bool" where
  "is_valid_char u char =
     (startswith (category u char) ''L''
      \<or> startswith (category u char) ''N''
      \<or> startswith (category u char) ''P''
      \<or> isspace char)"

definition remove_special_characters :: "unicode \<Rightarrow> pyval \<Rightarrow> exn + pyval" where
  "remove_special_characters u text =
     (case text of
        PyObj x fr \<Rightarrow> Inl LibTypeError
      | PyStr t \<Rightarrow> Inr (PyStr (filter (is_valid_char u) (nfkc u t))))"

section \<open>The list marker normaliser\<close>

text \<open>
  \<^verbatim>\<open>\d\<close> in a \<^verbatim>\<open>str\<close> pattern is a decimal digit of any script: the general
  category \<^verbatim>\<open>Nd\<close>. The three patterns are \<^verbatim>\<open>(?m)^\s*\d+[\.XY]\s*\<close> with the
  fullwidth full stop U+FF0E and the ideographic full stop U+3002,
  \<^verbatim>\<open>(?m)^\s*\d+[)Z]\s*\<close> with the ideographic comma U+3001, and
  \<^verbatim>\<open>(?m)^\s*[V(]\d+[W)]\s*\<close> with the fullwidth parentheses U+FF08 and U+FF09.
\<close>

definition one_of :: "nat list \<Rightarrow> nat \<Rightarrow> bool" where
  "one_of cs c = (c \<in> set cs)"

definition digit :: "unicode \<Rightarrow> nat \<Rightarrow> bool" where
  "digit u c = (category u c = ''Nd'')"

definition marker_dot :: "unicode \<Rightarrow> re" where
  "marker_dot u =
     Seq Bol (Seq (Rep (Ch isspace) 0 None True)
       (Seq (Rep (Ch (digit u)) 1 None True)
         (Seq (Ch (one_of [46, 65294, 12290])) (Rep (Ch isspace) 0 None True))))"

definition marker_paren :: "unicode \<Rightarrow> re" where
  "marker_paren u =
     Seq Bol (Seq (Rep (Ch isspace) 0 None True)
       (Seq (Rep (Ch (digit u)) 1 None True)
         (Seq (Ch (one_of [41, 12289])) (Rep (Ch isspace) 0 None True))))"

definition marker_wrapped :: "unicode \<Rightarrow> re" where
  "marker_wrapped u =
     Seq Bol (Seq (Rep (Ch isspace) 0 None True)
       (Seq (Ch (one_of [65288, 40]))
         (Seq (Rep (Ch (digit u)) 1 None True)
           (Seq (Ch (one_of [65289, 41])) (Rep (Ch isspace) 0 None True)))))"

definition filter_numbered_lists :: "unicode \<Rightarrow> pyval \<Rightarrow> exn + pyval" where
  "filter_numbered_lists u text =
     (case text of
        PyObj x fr \<Rightarrow> Inl LibTypeError
      | PyStr t \<Rightarrow>
          Inr (PyStr (clean_spaces
            (re_sub (marker_wrapped u) []
              (re_sub (marker_paren u) []
                (re_sub (marker_dot u) [] t))))))"

section \<open>The formatting cleanup\<close>

text \<open>The decimal numeral of the counter, as the f-string prints it.\<close>

function dec :: "nat \<Rightarrow> pystr" where
  "dec n = (if n < 10 then [48 + n] else dec (n div 10) @ [48 + n mod 10])"
  by pat_completeness auto
termination
  by (relation "measure (\<lambda>n. n)") auto

declare dec.simps [simp del]

text \<open>
  \<^verbatim>\<open>text.replace(old, new)\<close>: every occurrence of \<open>old\<close>, found from the left and
  not overlapping an earlier one, is replaced. (For an empty \<open>old\<close>, which the module
  never passes, Python puts \<open>new\<close> around every character.)
\<close>

function replace :: "pystr \<Rightarrow> pystr \<Rightarrow> pystr \<Rightarrow> pystr" where
  "replace old new t =
     (if old = [] then new @ concat (map (\<lambda>c. c # new) t)
      else if t = [] then []
      else if take (length old) t = old then new @ replace old new (drop (length old) t)
      else hd t # replace old new (tl t))"
  by pat_completeness auto
termination
  by (relation "measure (\<lambda>(old, new, t). length t)") auto

declare replace.simps [simp del]

text \<open>
  \<^verbatim>\<open>re.sub(pattern, function, text)\<close>: the function is called on each match, from
  the left, and its result replaces the match. \<open>protect_live2d\<close> reads and updates the
  closure's \<^verbatim>\<open>protected_patterns\<close> and \<^verbatim>\<open>protected_counter\<close>, the state \<open>'s\<close>.
\<close>

fun re_sub_fn :: "('s \<Rightarrow> pystr \<Rightarrow> pystr \<times> 's) \<Rightarrow> seg list \<Rightarrow> 's \<Rightarrow> pystr \<times> 's" where
  "re_sub_fn f [] s = ([], s)"
| "re_sub_fn f (Keep c # segs) s =
     (case re_sub_fn f segs s of (out, s') \<Rightarrow> (c # out, s'))"
| "re_sub_fn f (Match m # segs) s =
     (case f s m of (p, s1) \<Rightarrow>
        (case re_sub_fn f segs s1 of (out, s2) \<Rightarrow> (p @ out, s2)))"

fun protect_live2d :: "(pystr \<times> pystr) list \<times> nat \<Rightarrow> pystr \<Rightarrow> pystr \<times> ((pystr \<times> pystr) list \<times> nat)" where
  "protect_live2d (protected_patterns, protected_counter) m =
     (let placeholder = str ''__LIVE2D_PROTECT_'' @ dec protected_counter @ str ''__''
      in (placeholder, (protected_patterns @ [(placeholder, m)], protected_counter + 1)))"

text \<open>
  The patterns \<^verbatim>\<open>\[[^\]]+\]\<close>, \<^verbatim>\<open>(?<!\*)\*(?!\*)\<close>, \<^verbatim>\<open>#{1,6}\s+\<close> and, under
  \<^verbatim>\<open>re.MULTILINE\<close>, \<^verbatim>\<open>^[-+]\s+\<close>.
\<close>

definition bracket_span :: re where
  "bracket_span =
     Seq (Ch (lit ''['')) (Seq (Rep (Ch (\<lambda>c. \<not> lit '']'' c)) 1 None True) (Ch (lit '']'')))"

definition lone_asterisk :: re where
  "lone_asterisk = Seq (NotBehind (lit ''*'')) (Seq (Ch (lit ''*'')) (NotAhead (Ch (lit ''*''))))"

definition header_marks :: re where
  "header_marks = Seq (Rep (Ch (lit ''#'')) 1 (Some 6) True) (Rep (Ch isspace) 1 None True)"

definition bullet_marker :: re where
  "bullet_marker = Seq Bol (Seq (Ch (lit ''-+'')) (Rep (Ch isspace) 1 None True))"

definition restore :: "(pystr \<times> pystr) list \<Rightarrow> pystr \<Rightarrow> pystr" where
  "restore protected_patterns t =
     fold (\<lambda>(placeholder, original) text. replace placeholder original text) protected_patterns t"

definition filter_special_formatting :: "pyval \<Rightarrow> exn + pyval" where
  "filter_special_formatting text =
     (case text of
        PyObj x fr \<Rightarrow> Inl LibTypeError
      | PyStr t \<Rightarrow>
          (case re_sub_fn protect_live2d (re_scan bracket_span t 0) ([], 0) of
             (t1, (protected_patterns, protected_counter)) \<Rightarrow>
               let t2 = re_sub asterisk_span [] t1;
                   t3 = re_sub lone_asterisk [] t2;
                   t4 = re_sub header_marks [] t3;
                   t5 = re_sub bullet_marker [] t4;
                   t6 = restore protected_patterns t5
               in Inr (PyStr (clean_spaces t6))))"

section \<open>The dispatcher\<close>

text \<open>
  A log record is a level and the parts of its f-string: literal text, the rendering of
  an exception, the rendering of a value. A record is written only when every part of
  its f-string has been rendered.
\<close>

datatype level = DEBUG | INFO | WARNING | CRITICAL

datatype part = Txt string | ExnStr exn | ValStr pyval

type_synonym log_record = "level \<times> part list"

text \<open>\<^verbatim>\<open>isinstance(e, Exception)\<close>: what \<^verbatim>\<open>except Exception\<close> catches.\<close>

fun is_exception :: "exn \<Rightarrow> bool" where
  "is_exception (TypeError m) = True"
| "is_exception LibTypeError = True"
| "is_exception (Raised b name r) = b"

text \<open>
  What rendering \<^verbatim>\<open>{e}\<close> and \<^verbatim>\<open>{text}\<close> in an f-string raises, if it raises. The
  message of a \<^verbatim>\<open>TypeError\<close> and a string always render.
\<close>

fun str_raises :: "exn \<Rightarrow> exn option" where
  "str_raises (TypeError m) = None"
| "str_raises LibTypeError = None"
| "str_raises (Raised b name r) = r"

fun format_raises :: "pyval \<Rightarrow> exn option" where
  "format_raises (PyStr t) = None"
| "format_raises (PyObj n r) = r"

text \<open>
  One \<^verbatim>\<open>try: text = stage(text)  except Exception as e: ...\<close> block of
  \<^verbatim>\<open>tts_filter\<close>; the five blocks differ in the stage and in the first message only.
  The state is the log so far and \<^verbatim>\<open>text\<close>. An exception that is not an instance of
  \<^verbatim>\<open>Exception\<close> leaves the function, and so does an exception raised in the handler,
  where the two f-strings are rendered outside any \<^verbatim>\<open>try\<close>.
\<close>

definition skipped :: "string \<Rightarrow> exn \<Rightarrow> pyval \<Rightarrow> log_record list" where
  "skipped what e text =
     [(WARNING, [Txt what, ExnStr e]),
      (WARNING, [Txt ''Text: '', ValStr text]),
      (WARNING, [Txt ''Skipping...''])]"

definition try_stage ::
  "string \<Rightarrow> (pyval \<Rightarrow> exn + pyval) \<Rightarrow> log_record list \<times> pyval \<Rightarrow> exn + log_record list \<times> pyval" where
  "try_stage what stage s =
     (case s of (log, text) \<Rightarrow>
        (case stage text of
           Inr text' \<Rightarrow> Inr (log, text')
         | Inl e \<Rightarrow>
             if \<not> is_exception e then Inl e
             else (case str_raises e of
                     Some e' \<Rightarrow> Inl e'
                   | None \<Rightarrow>
                       (case format_raises text of
                          Some e' \<Rightarrow> Inl e'
                        | None \<Rightarrow> Inr (log @ skipped what e text, text)))))"

text \<open>
  A translator is an object: \<open>truth\<close> is what \<^verbatim>\<open>if translator:\<close> finds (its truth
  value, or the exception its \<^verbatim>\<open>__bool__\<close> or \<^verbatim>\<open>__len__\<close> raises) and
  \<open>translate\<close> is its method. The argument \<^verbatim>\<open>translator\<close> is \<^verbatim>\<open>None\<close> or a
  translator.
\<close>

record translator =
  truth :: "exn + bool"
  translate :: "pyval \<Rightarrow> exn + pyval"

text \<open>
  The handler of the translation block, entered with the exception \<open>e\<close> when
  \<^verbatim>\<open>text\<close> holds \<open>text\<close>.
\<close>

definition translate_failed ::
  "log_record list \<Rightarrow> exn \<Rightarrow> pyval \<Rightarrow> exn + log_record list \<times> pyval" where
  "translate_failed log e text =
     (if \<not> is_exception e then Inl e
      else (case str_raises e of
              Some e' \<Rightarrow> Inl e'
            | None \<Rightarrow>
                (case format_raises text of
                   Some e' \<Rightarrow> Inl e'
                 | None \<Rightarrow>
                     Inr (log @ [(INFO, [Txt ''Translating...'']),
                                 (CRITICAL, [Txt ''Error translating: '', ExnStr e]),
                                 (CRITICAL, [Txt ''Text: '', ValStr text]),
                                 (WARNING, [Txt ''Skipping...''])], text))))"

text \<open>
  The translation block. \<^verbatim>\<open>text\<close> is assigned before \<^verbatim>\<open>f"Translated: {text}"\<close>
  is rendered, inside the \<^verbatim>\<open>try\<close>: when that rendering raises, the handler runs with
  the translated text.
\<close>

definition try_translate ::
  "translator \<Rightarrow> log_record list \<times> pyval \<Rightarrow> exn + log_record list \<times> pyval" where
  "try_translate tr s =
     (case s of (log, text) \<Rightarrow>
        (case translate tr text of
           Inl e \<Rightarrow> translate_failed log e text
         | Inr text' \<Rightarrow>
             (case format_raises text' of
                Some e \<Rightarrow> translate_failed log e text'
              | None \<Rightarrow>
                  Inr (log @ [(INFO, [Txt ''Translating...'']),
                              (INFO, [Txt ''Translated: '', ValStr text'])], text'))))"

definition and_then :: "exn + 'a \<Rightarrow> ('a \<Rightarrow> exn + 'b) \<Rightarrow> exn + 'b" where
  "and_then m f = (case m of Inl e \<Rightarrow> Inl e | Inr x \<Rightarrow> f x)"

text \<open>
  \<^verbatim>\<open>tts_filter\<close>. The test \<^verbatim>\<open>if translator:\<close> and the last
  \<^verbatim>\<open>logger.debug(f"Filtered text: {text}")\<close> stand outside every \<^verbatim>\<open>try\<close>.
\<close>

definition tts_filter ::
  "unicode \<Rightarrow> pyval \<Rightarrow> bool \<Rightarrow> bool \<Rightarrow> bool \<Rightarrow> bool \<Rightarrow> bool \<Rightarrow> translator option
     \<Rightarrow> exn + log_record list \<times> pyval" where
  "tts_filter u text remove_special_char ignore_brackets ignore_parentheses ignore_asterisks
       ignore_angle_brackets translator =
     and_then (if ignore_asterisks
               then try_stage ''Error ignoring asterisks: '' filter_asterisks ([], text)
               else Inr ([], text)) (\<lambda>s1.
     and_then (if ignore_brackets
               then try_stage ''Error ignoring brackets: '' filter_brackets s1
               else Inr s1) (\<lambda>s2.
     and_then (if ignore_parentheses
               then try_stage ''Error ignoring parentheses: '' filter_parentheses s2
               else Inr s2) (\<lambda>s3.
     and_then (if ignore_angle_brackets
               then try_stage ''Error ignoring angle brackets: '' filter_angle_brackets s3
               else Inr s3) (\<lambda>s4.
     and_then (if remove_special_char
               then try_stage ''Error removing special characters: ''
                      (remove_special_characters u) s4
               else Inr s4) (\<lambda>s5.
     and_then (case translator of
                 None \<Rightarrow> Inr s5
               | Some tr \<Rightarrow>
                   (case truth tr of
                      Inl e \<Rightarrow> Inl e
                    | Inr b \<Rightarrow> if b then try_translate tr s5 else Inr s5)) (\<lambda>s6.
     (case format_raises (snd s6) of
        Some e \<Rightarrow> Inl e
      | None \<Rightarrow>
          Inr (fst s6 @ [(DEBUG, [Txt ''Filtered text: '', ValStr (snd s6)])], snd s6))))))))"

text \<open>
  An excerpt of the Unicode character database, for concrete inputs: the categories of
  the ASCII letters and digits, of the space, of \<^verbatim>\<open>!\<close> and \<^verbatim>\<open>#\<close> and of
  U+1F600; NFKC leaves a text of these characters as it is. It says nothing right about
  any other character.
\<close>

definition sample_unicode :: unicode where
  "sample_unicode =
     \<lparr>category = (\<lambda>c. if 65 \<le> c \<and> c \<le> 90 then ''Lu''
                       else if 97 \<le> c \<and> c \<le> 122 then ''Ll''
                       else if 48 \<le> c \<and> c \<le> 57 then ''Nd''
                       else if c = 32 then ''Zs''
                       else if c = 33 \<or> c = 35 then ''Po''
                       else if c = 128512 then ''So''
                       else ''Cn''),
      nfkc = (\<lambda>t. t)\<rparr>"

section \<open>Evaluation and basic facts\<close>

lemmas regex_eval = re_sub_def re_scan.simps ws_run_def clean_spaces_def strip_def
  isspace_def str_def lit_def dot_def one_of_def

lemmas nested_eval = filter_brackets_def filter_parentheses_def filter_angle_brackets_def
  filter_nested_def

lemma re_scan_keep: "Keep c \<in> set (re_scan r t i) \<Longrightarrow> c \<in> set t"
proof (induction r t i rule: re_scan.induct)
  case (1 r t i)
  show ?case
  proof (cases "ends r t i")
    case Nil
    then show ?thesis using "1.prems" "1.IH"
      by (subst (asm) re_scan.simps) (auto split: if_splits)
  next
    case (Cons j js)
    then show ?thesis using "1.prems" "1.IH"
      by (subst (asm) re_scan.simps) (auto split: if_splits)
  qed
qed

lemma set_re_sub: "set (re_sub r repl t) \<subseteq> set t \<union> set repl"
proof
  fix c assume "c \<in> set (re_sub r repl t)"
  then obtain g where g: "g \<in> set (re_scan r t 0)" and c: "c \<in> set (render repl g)"
    by (auto simp: re_sub_def)
  show "c \<in> set t \<union> set repl"
  proof (cases g)
    case (Keep k)
    with g c show ?thesis by (auto dest: re_scan_keep)
  next
    case (Match m)
    with c show ?thesis by simp
  qed
qed

lemma set_strip: "set (strip t) \<subseteq> set t"
proof
  fix c assume "c \<in> set (strip t)"
  then have "c \<in> set (dropWhile isspace (rev (dropWhile isspace t)))"
    by (simp add: strip_def)
  then have "c \<in> set (rev (dropWhile isspace t))"
    by (rule set_dropWhileD)
  then show "c \<in> set t"
    by (auto dest: set_dropWhileD)
qed

lemma set_clean_spaces: "set (clean_spaces t) \<subseteq> insert 32 (set t)"
  using set_strip [of "re_sub ws_run (str '' '') t"] set_re_sub [of ws_run "str '' ''" t]
  by (auto simp: clean_spaces_def str_def)

lemma clean_spaces_Nil: "clean_spaces [] = []"
  by (simp add: regex_eval)

lemma nested_loop_append:
  "nested_loop (u @ v) l r s = nested_loop v l r (nested_loop u l r s)"
  by (induction u l r s rule: nested_loop.induct) simp_all

lemma nested_loop_inside:
  "0 < d \<Longrightarrow> \<forall>c \<in> set v. [c] \<noteq> r \<Longrightarrow> fst (nested_loop v l r (res, d)) = res"
  by (induction v arbitrary: d) auto

lemma nested_loop_emits:
  "c \<in> set (fst (nested_loop t l r s)) \<Longrightarrow>
     c \<in> set (fst s) \<or> (c \<in> set t \<and> [c] \<noteq> l \<and> [c] \<noteq> r)"
  by (induction t l r s rule: nested_loop.induct) (auto split: if_splits)

lemma filter_nested_no_delimiter:
  assumes "l \<noteq> 32" "r \<noteq> 32"
  shows "\<exists>out. filter_nested (PyStr t) [l] [r] = Inr (PyStr out) \<and> l \<notin> set out \<and> r \<notin> set out"
proof (cases "t = []")
  case True
  then show ?thesis by (simp add: filter_nested_def)
next
  case False
  let ?res = "fst (nested_loop t [l] [r] ([], 0))"
  have "l \<notin> set ?res" "r \<notin> set ?res"
    using nested_loop_emits [of _ t "[l]" "[r]" "([], 0)"] by auto
  then have "l \<notin> set (clean_spaces ?res)" "r \<notin> set (clean_spaces ?res)"
    using set_clean_spaces [of ?res] assms by auto
  with False show ?thesis by (simp add: filter_nested_def)
qed

lemma filter_nested_unmatched_open:
  assumes "r \<notin> set v"
  shows "filter_nested (PyStr (u @ l # v)) [l] [r] = filter_nested (PyStr u) [l] [r]"
proof -
  obtain res d where s: "nested_loop u [l] [r] ([], 0) = (res, d)"
    by (cases "nested_loop u [l] [r] ([], 0)")
  have "fst (nested_loop (u @ l # v) [l] [r] ([], 0)) = fst (nested_loop v [l] [r] (res, d + 1))"
    by (simp add: nested_loop_append s)
  also have "\<dots> = res"
    using assms by (intro nested_loop_inside) auto
  finally have "fst (nested_loop (u @ l # v) [l] [r] ([], 0)) = fst (nested_loop u [l] [r] ([], 0))"
    by (simp add: s)
  then show ?thesis
    by (cases "u = []") (simp_all add: filter_nested_def clean_spaces_Nil)
qed

lemma nested_loop_snoc:
  "nested_loop (t @ [c]) l r s =
     (let res = fst (nested_loop t l r s); d = snd (nested_loop t l r s)
      in if [c] = l then (res, d + 1)
         else if [c] = r then (res, if 0 < d then d - 1 else d)
         else (if d = 0 then res @ [c] else res, d))"
  by (cases "nested_loop t l r s") (simp add: nested_loop_append)

section \<open>Claims about the nested-span stripper\<close>

text \<open>
  C2, as the specification states it: \<^verbatim>\<open>filter_angle_brackets("a>b<c>d")\<close> would be
  \<^verbatim>\<open>"ab d"\<close>. The code returns another string.
\<close>

theorem filter_angle_brackets_stray_closer_not_spaced:
  "filter_angle_brackets (PyStr (str ''a>b<c>d'')) \<noteq> Inr (PyStr (str ''ab d''))"
  by (simp add: nested_eval regex_eval)

text \<open>
  C2, amended: \<^verbatim>\<open>filter_angle_brackets("a>b<c>d")\<close> returns \<^verbatim>\<open>"abd"\<close> and raises
  nothing. The unmatched closing delimiter in front is dropped and the span
  \<^verbatim>\<open><c>\<close> is removed; no space is put where the span stood, so \<^verbatim>\<open>b\<close> and
  \<^verbatim>\<open>d\<close> become adjacent.
\<close>

theorem filter_angle_brackets_stray_closer:
  "filter_angle_brackets (PyStr (str ''a>b<c>d'')) = Inr (PyStr (str ''abd''))"
  by (simp add: nested_eval regex_eval)

text \<open>
  The depth rule in the claim's words, to compare the code with. \<open>spec_depth l r pre\<close>
  is the depth after the characters \<open>pre\<close>: it starts at 0, every opening delimiter
  \<open>l\<close> adds one, a closing delimiter \<open>r\<close> takes one off only when the depth is
  positive, and no other character changes it. \<open>spec_emitted l r t\<close> keeps, in their
  order, the characters of \<open>t\<close> that are no delimiter and are read at depth 0.
\<close>

definition spec_depth :: "nat \<Rightarrow> nat \<Rightarrow> pystr \<Rightarrow> nat" where
  "spec_depth l r pre =
     foldl (\<lambda>d c. if c = l then d + 1 else if c = r then (if 0 < d then d - 1 else d) else d) 0 pre"

definition spec_emitted :: "nat \<Rightarrow> nat \<Rightarrow> pystr \<Rightarrow> pystr" where
  "spec_emitted l r t =
     map (nth t) (filter (\<lambda>i. t ! i \<noteq> l \<and> t ! i \<noteq> r \<and> spec_depth l r (take i t) = 0) [0..<length t])"

lemma spec_depth_snoc:
  "spec_depth l r (pre @ [c]) =
     (if c = l then spec_depth l r pre + 1
      else if c = r then (if 0 < spec_depth l r pre then spec_depth l r pre - 1 else spec_depth l r pre)
      else spec_depth l r pre)"
  by (simp add: spec_depth_def)

lemma spec_emitted_snoc:
  "spec_emitted l r (t @ [c]) =
     spec_emitted l r t @ (if c \<noteq> l \<and> c \<noteq> r \<and> spec_depth l r t = 0 then [c] else [])"
proof -
  have old: "map (nth (t @ [c]))
      (filter (\<lambda>i. (t @ [c]) ! i \<noteq> l \<and> (t @ [c]) ! i \<noteq> r \<and> spec_depth l r (take i (t @ [c])) = 0)
        [0..<length t])
     = spec_emitted l r t"
    unfolding spec_emitted_def
  proof (rule map_cong)
    show "filter (\<lambda>i. (t @ [c]) ! i \<noteq> l \<and> (t @ [c]) ! i \<noteq> r \<and> spec_depth l r (take i (t @ [c])) = 0)
        [0..<length t]
      = filter (\<lambda>i. t ! i \<noteq> l \<and> t ! i \<noteq> r \<and> spec_depth l r (take i t) = 0) [0..<length t]"
      by (rule filter_cong) (auto simp: nth_append)
  next
    fix i
    assume "i \<in> set (filter (\<lambda>i. t ! i \<noteq> l \<and> t ! i \<noteq> r \<and> spec_depth l r (take i t) = 0) [0..<length t])"
    then show "(t @ [c]) ! i = t ! i" by (simp add: nth_append)
  qed
  have "spec_emitted l r (t @ [c]) =
      map (nth (t @ [c]))
      (filter (\<lambda>i. (t @ [c]) ! i \<noteq> l \<and> (t @ [c]) ! i \<noteq> r \<and> spec_depth l r (take i (t @ [c])) = 0)
        ([0..<length t] @ [length t]))"
    by (simp add: spec_emitted_def)
  also have "\<dots> = spec_emitted l r t @ (if c \<noteq> l \<and> c \<noteq> r \<and> spec_depth l r t = 0 then [c] else [])"
    unfolding filter_append map_append old by simp
  finally show ?thesis .
qed

lemma nested_loop_spec:
  "nested_loop t [l] [r] ([], 0) = (spec_emitted l r t, spec_depth l r t)"
proof (induction t rule: rev_induct)
  case Nil
  show ?case by (simp add: spec_emitted_def spec_depth_def)
next
  case (snoc c t)
  then show ?case
    by (simp add: nested_loop_snoc spec_emitted_snoc spec_depth_snoc)
qed

lemma filter_nested_spec:
  "filter_nested (PyStr t) [l] [r] = Inr (PyStr (clean_spaces (spec_emitted l r t)))"
proof (cases "t = []")
  case True
  then show ?thesis by (simp add: filter_nested_def spec_emitted_def clean_spaces_Nil)
next
  case False
  then show ?thesis by (simp add: filter_nested_def nested_loop_spec)
qed

lemma nested_loop_balanced_aux:
  assumes "l \<noteq> r"
  shows "(\<forall>k \<le> length w. count_list (take k w) r \<le> count_list (take k w) l) \<Longrightarrow>
         nested_loop w [l] [r] (res, Suc d) = (res, Suc d + count_list w l - count_list w r)"
proof (induction w rule: rev_induct)
  case Nil
  show ?case by simp
next
  case (snoc c w)
  have pre: "\<forall>k \<le> length w. count_list (take k w) r \<le> count_list (take k w) l"
  proof (intro allI impI)
    fix k assume k: "k \<le> length w"
    then have "k \<le> length (w @ [c])" by simp
    with snoc.prems have "count_list (take k (w @ [c])) r \<le> count_list (take k (w @ [c])) l"
      by blast
    with k show "count_list (take k w) r \<le> count_list (take k w) l" by simp
  qed
  from snoc.IH [OF pre] have ih: "nested_loop w [l] [r] (res, Suc d)
      = (res, Suc d + count_list w l - count_list w r)" .
  from pre have le: "count_list w r \<le> count_list w l"
    by (metis order_refl take_all)
  from snoc.prems have full: "count_list (w @ [c]) r \<le> count_list (w @ [c]) l"
    by (metis order_refl take_all)
  show ?case
    using le full assms by (auto simp: nested_loop_append ih)
qed

lemma filter_nested_balanced_span:
  assumes "l \<noteq> r"
    and "\<forall>k \<le> length w. count_list (take k w) r \<le> count_list (take k w) l"
    and "count_list w r = count_list w l"
  shows "filter_nested (PyStr (u @ l # w @ r # v)) [l] [r] = filter_nested (PyStr (u @ v)) [l] [r]"
proof -
  obtain res d where s: "nested_loop u [l] [r] ([], 0) = (res, d)"
    by (cases "nested_loop u [l] [r] ([], 0)")
  have w: "nested_loop w [l] [r] (res, Suc d) = (res, Suc d)"
    using nested_loop_balanced_aux [OF assms(1,2), of res d] assms(3) by simp
  have "nested_loop (u @ [l] @ w @ [r] @ v) [l] [r] ([], 0) = nested_loop v [l] [r] (res, d)"
    using assms(1) by (simp only: nested_loop_append s) (simp add: w)
  also have "\<dots> = nested_loop (u @ v) [l] [r] ([], 0)"
    by (simp add: nested_loop_append s)
  finally have eq: "nested_loop (u @ l # w @ r # v) [l] [r] ([], 0) = nested_loop (u @ v) [l] [r] ([], 0)"
    by simp
  have "spec_emitted l r (u @ l # w @ r # v) = spec_emitted l r (u @ v)"
    using eq by (simp add: nested_loop_spec)
  then show ?thesis by (simp add: filter_nested_spec)
qed

text \<open>
  C7: \<^verbatim>\<open>_filter_nested\<close> and its three instantiations (delimiters \<^verbatim>\<open>[ ]\<close>, code
  points 91 and 93; \<^verbatim>\<open>( )\<close>, 40 and 41; \<^verbatim>\<open>< >\<close>, 60 and 62) return, for every string,
  the characters that the depth rule emits, with whitespace runs collapsed and the ends
  trimmed: the depth starts at 0, goes up by one at every opening delimiter, goes down by
  one at a closing delimiter only when it is positive, and a character that is no
  delimiter is emitted exactly when the depth is 0. Consequently the results hold no
  delimiter; an opening delimiter that no closing delimiter follows removes everything
  up to the end of the string; a span from an opening delimiter to the closing delimiter
  that matches it, whatever is nested in it, is removed entirely;
  \<^verbatim>\<open>filter_parentheses("x(y")\<close> is \<^verbatim>\<open>"x"\<close> and
  \<^verbatim>\<open>filter_brackets("a[b[c]d]e")\<close> is \<^verbatim>\<open>"ae"\<close>.
\<close>

theorem filter_nested_depth_rule:
  "spec_depth l r [] = 0
   \<and> spec_depth l r (pre @ [c]) =
       (if c = l then spec_depth l r pre + 1
        else if c = r then (if 0 < spec_depth l r pre then spec_depth l r pre - 1
                            else spec_depth l r pre)
        else spec_depth l r pre)
   \<and> filter_nested (PyStr t) [l] [r] = Inr (PyStr (clean_spaces (spec_emitted l r t)))
   \<and> filter_brackets (PyStr t) = Inr (PyStr (clean_spaces (spec_emitted 91 93 t)))
   \<and> filter_parentheses (PyStr t) = Inr (PyStr (clean_spaces (spec_emitted 40 41 t)))
   \<and> filter_angle_brackets (PyStr t) = Inr (PyStr (clean_spaces (spec_emitted 60 62 t)))
   \<and> (\<exists>out. filter_brackets (PyStr t) = Inr (PyStr out) \<and> set out \<inter> set (str ''[]'') = {})
   \<and> (\<exists>out. filter_parentheses (PyStr t) = Inr (PyStr out) \<and> set out \<inter> set (str ''()'') = {})
   \<and> (\<exists>out. filter_angle_brackets (PyStr t) = Inr (PyStr out) \<and> set out \<inter> set (str ''<>'') = {})
   \<and> (r \<notin> set v \<longrightarrow>
        filter_nested (PyStr (u @ l # v)) [l] [r] = filter_nested (PyStr u) [l] [r])
   \<and> (l \<noteq> r \<and> (\<forall>k \<le> length w. count_list (take k w) r \<le> count_list (take k w) l)
          \<and> count_list w r = count_list w l \<longrightarrow>
        filter_nested (PyStr (u @ l # w @ r # v)) [l] [r] = filter_nested (PyStr (u @ v)) [l] [r])
   \<and> filter_parentheses (PyStr (str ''x(y'')) = Inr (PyStr (str ''x''))
   \<and> filter_brackets (PyStr (str ''a[b[c]d]e'')) = Inr (PyStr (str ''ae''))"
proof -
  have d0: "spec_depth l r [] = 0"
    by (simp add: spec_depth_def)
  have d1: "spec_depth l r (pre @ [c]) =
       (if c = l then spec_depth l r pre + 1
        else if c = r then (if 0 < spec_depth l r pre then spec_depth l r pre - 1
                            else spec_depth l r pre)
        else spec_depth l r pre)"
    by (rule spec_depth_snoc)
  have g: "filter_nested (PyStr t) [l] [r] = Inr (PyStr (clean_spaces (spec_emitted l r t)))"
    by (rule filter_nested_spec)
  have g1: "filter_brackets (PyStr t) = Inr (PyStr (clean_spaces (spec_emitted 91 93 t)))"
    using filter_nested_spec [of t 91 93] by (simp add: filter_brackets_def str_def)
  have g2: "filter_parentheses (PyStr t) = Inr (PyStr (clean_spaces (spec_emitted 40 41 t)))"
    using filter_nested_spec [of t 40 41] by (simp add: filter_parentheses_def str_def)
  have g3: "filter_angle_brackets (PyStr t) = Inr (PyStr (clean_spaces (spec_emitted 60 62 t)))"
    using filter_nested_spec [of t 60 62] by (simp add: filter_angle_brackets_def str_def)
  have sq: "\<exists>out. filter_brackets (PyStr t) = Inr (PyStr out) \<and> set out \<inter> set (str ''[]'') = {}"
    using filter_nested_no_delimiter [of 91 93 t] by (auto simp: filter_brackets_def str_def)
  have pa: "\<exists>out. filter_parentheses (PyStr t) = Inr (PyStr out) \<and> set out \<inter> set (str ''()'') = {}"
    using filter_nested_no_delimiter [of 40 41 t] by (auto simp: filter_parentheses_def str_def)
  have an: "\<exists>out. filter_angle_brackets (PyStr t) = Inr (PyStr out) \<and> set out \<inter> set (str ''<>'') = {}"
    using filter_nested_no_delimiter [of 60 62 t] by (auto simp: filter_angle_brackets_def str_def)
  have op: "r \<notin> set v \<longrightarrow>
        filter_nested (PyStr (u @ l # v)) [l] [r] = filter_nested (PyStr u) [l] [r]"
    by (simp add: filter_nested_unmatched_open)
  have ba: "l \<noteq> r \<and> (\<forall>k \<le> length w. count_list (take k w) r \<le> count_list (take k w) l)
          \<and> count_list w r = count_list w l \<longrightarrow>
        filter_nested (PyStr (u @ l # w @ r # v)) [l] [r] = filter_nested (PyStr (u @ v)) [l] [r]"
    using filter_nested_balanced_span [of l r w u v] by blast
  have e1: "filter_parentheses (PyStr (str ''x(y'')) = Inr (PyStr (str ''x''))"
    by (simp add: nested_eval regex_eval)
  have e2: "filter_brackets (PyStr (str ''a[b[c]d]e'')) = Inr (PyStr (str ''ae''))"
    by (simp add: nested_eval regex_eval)
  from d0 d1 g g1 g2 g3 sq pa an op ba e1 e2 show ?thesis by blast
qed

theorem filter_nested_depth_rule_witness:
  "41 \<notin> set (str ''y[z'')
   \<and> filter_nested (PyStr (str ''a b'' @ 40 # str ''y[z'')) [40] [41]
       = filter_nested (PyStr (str ''a b'')) [40] [41]
   \<and> filter_nested (PyStr (str ''a b'')) [40] [41] = Inr (PyStr (str ''a b''))
   \<and> (91 :: nat) \<noteq> 93
   \<and> list_all (\<lambda>k. count_list (take k (str ''b[c]d'')) 93 \<le> count_list (take k (str ''b[c]d'')) 91)
        [0 ..< Suc (length (str ''b[c]d''))]
   \<and> count_list (str ''b[c]d'') 93 = count_list (str ''b[c]d'') 91
   \<and> filter_nested (PyStr (str ''a'' @ 91 # str ''b[c]d'' @ 93 # str ''e'')) [91] [93]
       = filter_nested (PyStr (str ''a'' @ str ''e'')) [91] [93]
   \<and> filter_nested (PyStr (str ''a'' @ str ''e'')) [91] [93] = Inr (PyStr (str ''ae''))"
proof -
  have h: "41 \<notin> set (str ''y[z'')"
    by (simp add: str_def)
  have o: "filter_nested (PyStr (str ''a b'' @ 40 # str ''y[z'')) [40] [41]
       = filter_nested (PyStr (str ''a b'')) [40] [41]"
    using filter_nested_depth_rule [of 40 41 _ _ _ "str ''y[z''" "str ''a b''"] h by blast
  have v1: "filter_nested (PyStr (str ''a b'')) [40] [41] = Inr (PyStr (str ''a b''))"
    by (simp add: nested_eval regex_eval)
  have la: "list_all (\<lambda>k. count_list (take k (str ''b[c]d'')) 93 \<le> count_list (take k (str ''b[c]d'')) 91)
        [0 ..< Suc (length (str ''b[c]d''))]"
    by (simp add: str_def upt_rec)
  have pre: "\<forall>k \<le> length (str ''b[c]d'').
      count_list (take k (str ''b[c]d'')) 93 \<le> count_list (take k (str ''b[c]d'')) 91"
  proof (intro allI impI)
    fix k assume "k \<le> length (str ''b[c]d'')"
    then have "k \<in> set [0 ..< Suc (length (str ''b[c]d''))]" by auto
    with la show "count_list (take k (str ''b[c]d'')) 93 \<le> count_list (take k (str ''b[c]d'')) 91"
      unfolding list_all_iff by blast
  qed
  have cnt: "count_list (str ''b[c]d'') 93 = count_list (str ''b[c]d'') 91"
    by (simp add: str_def)
  have b: "filter_nested (PyStr (str ''a'' @ 91 # str ''b[c]d'' @ 93 # str ''e'')) [91] [93]
       = filter_nested (PyStr (str ''a'' @ str ''e'')) [91] [93]"
  proof -
    have ne: "(91 :: nat) \<noteq> 93" by simp
    from filter_nested_depth_rule [of 91 93 _ _ _ "str ''e''" "str ''a''" "str ''b[c]d''"] ne pre cnt
    show ?thesis by blast
  qed
  have v2: "filter_nested (PyStr (str ''a'' @ str ''e'')) [91] [93] = Inr (PyStr (str ''ae''))"
    by (simp add: nested_eval regex_eval)
  from h o v1 la cnt b v2 show ?thesis by simp
qed

section \<open>Claims about the dispatcher\<close>

lemma stage_str:
  "\<exists>t'. filter_asterisks (PyStr t) = Inr (PyStr t')"
  "\<exists>t'. filter_brackets (PyStr t) = Inr (PyStr t')"
  "\<exists>t'. filter_parentheses (PyStr t) = Inr (PyStr t')"
  "\<exists>t'. filter_angle_brackets (PyStr t) = Inr (PyStr t')"
  "\<exists>t'. remove_special_characters u (PyStr t) = Inr (PyStr t')"
  by (simp_all add: filter_asterisks_def nested_eval remove_special_characters_def)


lemma guarded_str:
  assumes "\<And>a. \<exists>b. st (PyStr a) = Inr (PyStr b)"
  shows "\<exists>b. (if flag then st (PyStr a) else Inr (PyStr a)) = Inr (PyStr b)"
  using assms by (cases flag) auto

lemma guarded_ok:
  "(if flag then st x else Inr x) = Inr y \<Longrightarrow>
   (if flag then try_stage w st (lg, x) else Inr (lg, x)) = Inr (lg, y)"
  by (auto simp: try_stage_def split: if_splits)


text \<open>
  For the proofs: what \<^verbatim>\<open>tts_filter\<close> does behind its five stage blocks, from the
  log and the text \<open>s5\<close> they leave.
\<close>

definition translation ::
  "translator option \<Rightarrow> log_record list \<times> pyval \<Rightarrow> exn + log_record list \<times> pyval" where
  "translation translator s5 =
     and_then (case translator of
                 None \<Rightarrow> Inr s5
               | Some tr \<Rightarrow>
                   (case truth tr of
                      Inl e \<Rightarrow> Inl e
                    | Inr b \<Rightarrow> if b then try_translate tr s5 else Inr s5)) (\<lambda>s6.
     (case format_raises (snd s6) of
        Some e \<Rightarrow> Inl e
      | None \<Rightarrow>
          Inr (fst s6 @ [(DEBUG, [Txt ''Filtered text: '', ValStr (snd s6)])], snd s6)))"

lemma tts_filter_str:
  assumes "(if ia then filter_asterisks (PyStr t) else Inr (PyStr t)) = Inr (PyStr t1)"
    and "(if ib then filter_brackets (PyStr t1) else Inr (PyStr t1)) = Inr (PyStr t2)"
    and "(if ip then filter_parentheses (PyStr t2) else Inr (PyStr t2)) = Inr (PyStr t3)"
    and "(if iab then filter_angle_brackets (PyStr t3) else Inr (PyStr t3)) = Inr (PyStr t4)"
    and "(if rsc then remove_special_characters u (PyStr t4) else Inr (PyStr t4)) = Inr (PyStr t5)"
  shows "tts_filter u (PyStr t) rsc ib ip ia iab tr = translation tr ([], PyStr t5)"
  unfolding tts_filter_def translation_def
  by (simp only: guarded_ok [of ia filter_asterisks "PyStr t" "PyStr t1", OF assms(1)]
      guarded_ok [of ib filter_brackets "PyStr t1" "PyStr t2", OF assms(2)]
      guarded_ok [of ip filter_parentheses "PyStr t2" "PyStr t3", OF assms(3)]
      guarded_ok [of iab filter_angle_brackets "PyStr t3" "PyStr t4", OF assms(4)]
      guarded_ok [of rsc "remove_special_characters u" "PyStr t4" "PyStr t5", OF assms(5)]
      and_then_def sum.case)


lemma translation_None:
  "format_raises x = None \<Longrightarrow>
   translation None (lg, x) = Inr (lg @ [(DEBUG, [Txt ''Filtered text: '', ValStr x])], x)"
  by (simp add: translation_def and_then_def)

lemma translation_falsy:
  "truth tr = Inr False \<Longrightarrow> format_raises x = None \<Longrightarrow>
   translation (Some tr) (lg, x) = Inr (lg @ [(DEBUG, [Txt ''Filtered text: '', ValStr x])], x)"
  by (simp add: translation_def and_then_def)

lemma translation_ok:
  "truth tr = Inr True \<Longrightarrow> translate tr x = Inr v \<Longrightarrow> format_raises v = None \<Longrightarrow>
   translation (Some tr) (lg, x)
     = Inr (lg @ [(INFO, [Txt ''Translating...'']),
                  (INFO, [Txt ''Translated: '', ValStr v]),
                  (DEBUG, [Txt ''Filtered text: '', ValStr v])], v)"
  by (simp add: translation_def and_then_def try_translate_def)




text \<open>
  C6, as the specification states it, has the translation run exactly when a translator
  is supplied. The code tests \<^verbatim>\<open>if translator:\<close>: a translator that is supplied and
  whose truth value is false (an object with \<^verbatim>\<open>__bool__\<close> or \<^verbatim>\<open>__len__\<close>) is not
  called, and the untranslated text is returned.
\<close>

theorem tts_filter_falsy_translator_not_called:
  "translate \<lparr>truth = Inr False, translate = (\<lambda>x. Inr (PyStr (str ''hola'')))\<rparr> (PyStr (str ''hi''))
     = Inr (PyStr (str ''hola''))
   \<and> tts_filter sample_unicode (PyStr (str ''hi'')) False False False False False
        (Some \<lparr>truth = Inr False, translate = (\<lambda>x. Inr (PyStr (str ''hola'')))\<rparr>)
     = Inr ([(DEBUG, [Txt ''Filtered text: '', ValStr (PyStr (str ''hi''))])], PyStr (str ''hi''))"
  by (simp add: tts_filter_def and_then_def)

text \<open>
  C6, amended: on a string, \<^verbatim>\<open>tts_filter\<close> applies the stages in the fixed order
  asterisk removal, square brackets, parentheses, angle brackets, Unicode category
  filter: the text \<open>t5\<close> it returns without a translator is reached from the input
  through \<open>t1\<close>, ..., \<open>t4\<close>, each step being the stage when its flag is set and the
  identity when it is not. The translation comes last and runs exactly when the
  translator argument is true in \<^verbatim>\<open>if translator:\<close>: without a translator, and with
  one whose truth value is false, \<open>t5\<close> is returned; a translator whose truth value
  is true is called on \<open>t5\<close> and its result is returned.
\<close>

theorem tts_filter_stage_order:
  "\<exists>t1 t2 t3 t4 t5.
     (if ignore_asterisks then filter_asterisks (PyStr t) else Inr (PyStr t)) = Inr (PyStr t1)
   \<and> (if ignore_brackets then filter_brackets (PyStr t1) else Inr (PyStr t1)) = Inr (PyStr t2)
   \<and> (if ignore_parentheses then filter_parentheses (PyStr t2) else Inr (PyStr t2)) = Inr (PyStr t3)
   \<and> (if ignore_angle_brackets then filter_angle_brackets (PyStr t3) else Inr (PyStr t3))
        = Inr (PyStr t4)
   \<and> (if remove_special_char then remove_special_characters u (PyStr t4) else Inr (PyStr t4))
        = Inr (PyStr t5)
   \<and> tts_filter u (PyStr t) remove_special_char ignore_brackets ignore_parentheses
         ignore_asterisks ignore_angle_brackets None
        = Inr ([(DEBUG, [Txt ''Filtered text: '', ValStr (PyStr t5)])], PyStr t5)
   \<and> (\<forall>tr. truth tr = Inr False \<longrightarrow>
          tts_filter u (PyStr t) remove_special_char ignore_brackets ignore_parentheses
            ignore_asterisks ignore_angle_brackets (Some tr)
          = Inr ([(DEBUG, [Txt ''Filtered text: '', ValStr (PyStr t5)])], PyStr t5))
   \<and> (\<forall>tr v. truth tr = Inr True \<and> translate tr (PyStr t5) = Inr v \<and> format_raises v = None \<longrightarrow>
          tts_filter u (PyStr t) remove_special_char ignore_brackets ignore_parentheses
            ignore_asterisks ignore_angle_brackets (Some tr)
          = Inr ([(INFO, [Txt ''Translating...'']),
                  (INFO, [Txt ''Translated: '', ValStr v]),
                  (DEBUG, [Txt ''Filtered text: '', ValStr v])], v))"
proof -
  obtain t1 where 1: "(if ignore_asterisks then filter_asterisks (PyStr t) else Inr (PyStr t)) = Inr (PyStr t1)"
    using guarded_str [of filter_asterisks ignore_asterisks t] stage_str(1) by blast
  obtain t2 where 2: "(if ignore_brackets then filter_brackets (PyStr t1) else Inr (PyStr t1)) = Inr (PyStr t2)"
    using guarded_str [of filter_brackets ignore_brackets t1] stage_str(2) by blast
  obtain t3 where 3: "(if ignore_parentheses then filter_parentheses (PyStr t2) else Inr (PyStr t2)) = Inr (PyStr t3)"
    using guarded_str [of filter_parentheses ignore_parentheses t2] stage_str(3) by blast
  obtain t4 where 4: "(if ignore_angle_brackets then filter_angle_brackets (PyStr t3) else Inr (PyStr t3)) = Inr (PyStr t4)"
    using guarded_str [of filter_angle_brackets ignore_angle_brackets t3] stage_str(4) by blast
  obtain t5 where 5: "(if remove_special_char then remove_special_characters u (PyStr t4) else Inr (PyStr t4)) = Inr (PyStr t5)"
    using guarded_str [of "remove_special_characters u" remove_special_char t4] stage_str(5) by blast
  note run = tts_filter_str [OF 1 2 3 4 5]
  have none: "tts_filter u (PyStr t) remove_special_char ignore_brackets ignore_parentheses
         ignore_asterisks ignore_angle_brackets None
        = Inr ([(DEBUG, [Txt ''Filtered text: '', ValStr (PyStr t5)])], PyStr t5)"
    by (simp add: run translation_None)
  have falsy: "\<forall>tr. truth tr = Inr False \<longrightarrow>
          tts_filter u (PyStr t) remove_special_char ignore_brackets ignore_parentheses
            ignore_asterisks ignore_angle_brackets (Some tr)
          = Inr ([(DEBUG, [Txt ''Filtered text: '', ValStr (PyStr t5)])], PyStr t5)"
    by (simp add: run translation_falsy)
  have some: "\<forall>tr v. truth tr = Inr True \<and> translate tr (PyStr t5) = Inr v \<and> format_raises v = None \<longrightarrow>
          tts_filter u (PyStr t) remove_special_char ignore_brackets ignore_parentheses
            ignore_asterisks ignore_angle_brackets (Some tr)
          = Inr ([(INFO, [Txt ''Translating...'']),
                  (INFO, [Txt ''Translated: '', ValStr v]),
                  (DEBUG, [Txt ''Filtered text: '', ValStr v])], v)"
    by (simp add: run translation_ok)
  from 1 2 3 4 5 none falsy some show ?thesis by blast
qed

theorem tts_filter_stage_order_witness:
  "truth \<lparr>truth = Inr True, translate = (\<lambda>x. Inr (PyStr (str ''hola'')))\<rparr> = Inr True
   \<and> format_raises (PyStr (str ''hola'')) = None
   \<and> truth \<lparr>truth = Inr False, translate = (\<lambda>x. Inr (PyStr (str ''hola'')))\<rparr> = Inr False
   \<and> tts_filter sample_unicode (PyStr (str ''*x* a[b](c)<d>!'')) True True True True True
        (Some \<lparr>truth = Inr False, translate = (\<lambda>x. Inr (PyStr (str ''hola'')))\<rparr>)
      = tts_filter sample_unicode (PyStr (str ''*x* a[b](c)<d>!'')) True True True True True None
   \<and> tts_filter sample_unicode (PyStr (str ''*x* a[b](c)<d>!'')) True True True True True
        (Some \<lparr>truth = Inr True, translate = (\<lambda>x. Inr (PyStr (str ''hola'')))\<rparr>)
      = Inr ([(INFO, [Txt ''Translating...'']),
              (INFO, [Txt ''Translated: '', ValStr (PyStr (str ''hola''))]),
              (DEBUG, [Txt ''Filtered text: '', ValStr (PyStr (str ''hola''))])],
             PyStr (str ''hola''))"
  using tts_filter_stage_order [of True "str ''*x* a[b](c)<d>!''" True True True True sample_unicode]
  by auto




section \<open>Claims about the Unicode category filter\<close>

lemma filter_isspace_valid:
  "filter (\<lambda>x. is_valid_char u x \<and> isspace x) xs = filter isspace xs"
  by (rule filter_cong) (auto simp: is_valid_char_def)

text \<open>
  C9: \<^verbatim>\<open>remove_special_characters\<close> normalises its input to NFKC and then keeps
  exactly the characters whose general category begins with \<^verbatim>\<open>L\<close>, \<^verbatim>\<open>N\<close> or
  \<^verbatim>\<open>P\<close> or that are whitespace, in their order; every whitespace character of the
  normalised text is kept, so no whitespace is collapsed. With the categories that the
  Unicode database gives the characters of \<^verbatim>\<open>"Hello \U0001F600 World #1!"\<close>, a text
  that NFKC leaves as it is, the result is \<^verbatim>\<open>"Hello  World #1!"\<close>, with two spaces
  where the emoji stood.
\<close>

theorem remove_special_characters_unicode_filter:
  "remove_special_characters u (PyStr t)
     = Inr (PyStr (filter (\<lambda>c. take 1 (category u c) = ''L'' \<or> take 1 (category u c) = ''N''
                               \<or> take 1 (category u c) = ''P'' \<or> isspace c) (nfkc u t)))
   \<and> (\<exists>out. remove_special_characters u (PyStr t) = Inr (PyStr out)
          \<and> filter isspace out = filter isspace (nfkc u t))
   \<and> (nfkc u (str ''Hello '' @ 128512 # str '' World #1!'')
          = str ''Hello '' @ 128512 # str '' World #1!''
        \<and> map (category u) (str ''Hello '' @ 128512 # str '' World #1!'')
          = [''Lu'', ''Ll'', ''Ll'', ''Ll'', ''Ll'', ''Zs'', ''So'', ''Zs'',
             ''Lu'', ''Ll'', ''Ll'', ''Ll'', ''Ll'', ''Zs'', ''Po'', ''Nd'', ''Po'']
        \<longrightarrow> remove_special_characters u (PyStr (str ''Hello '' @ 128512 # str '' World #1!''))
          = Inr (PyStr (str ''Hello  World #1!'')))"
proof -
  have v: "is_valid_char u = (\<lambda>c. take 1 (category u c) = ''L'' \<or> take 1 (category u c) = ''N''
                               \<or> take 1 (category u c) = ''P'' \<or> isspace c)"
    by (rule ext) (simp add: is_valid_char_def startswith_def)
  have a: "remove_special_characters u (PyStr t)
     = Inr (PyStr (filter (\<lambda>c. take 1 (category u c) = ''L'' \<or> take 1 (category u c) = ''N''
                               \<or> take 1 (category u c) = ''P'' \<or> isspace c) (nfkc u t)))"
    by (simp add: remove_special_characters_def v)
  have b: "\<exists>out. remove_special_characters u (PyStr t) = Inr (PyStr out)
          \<and> filter isspace out = filter isspace (nfkc u t)"
    by (simp add: remove_special_characters_def filter_isspace_valid)
  have c: "nfkc u (str ''Hello '' @ 128512 # str '' World #1!'')
          = str ''Hello '' @ 128512 # str '' World #1!''
        \<and> map (category u) (str ''Hello '' @ 128512 # str '' World #1!'')
          = [''Lu'', ''Ll'', ''Ll'', ''Ll'', ''Ll'', ''Zs'', ''So'', ''Zs'',
             ''Lu'', ''Ll'', ''Ll'', ''Ll'', ''Ll'', ''Zs'', ''Po'', ''Nd'', ''Po'']
        \<longrightarrow> remove_special_characters u (PyStr (str ''Hello '' @ 128512 # str '' World #1!''))
          = Inr (PyStr (str ''Hello  World #1!''))"
    by (simp add: remove_special_characters_def is_valid_char_def startswith_def str_def isspace_def)
  from a b c show ?thesis by blast
qed

theorem remove_special_characters_unicode_filter_witness:
  "nfkc sample_unicode (str ''Hello '' @ 128512 # str '' World #1!'')
          = str ''Hello '' @ 128512 # str '' World #1!''
   \<and> map (category sample_unicode) (str ''Hello '' @ 128512 # str '' World #1!'')
          = [''Lu'', ''Ll'', ''Ll'', ''Ll'', ''Ll'', ''Zs'', ''So'', ''Zs'',
             ''Lu'', ''Ll'', ''Ll'', ''Ll'', ''Ll'', ''Zs'', ''Po'', ''Nd'', ''Po'']
   \<and> remove_special_characters sample_unicode (PyStr (str ''Hello '' @ 128512 # str '' World #1!''))
          = Inr (PyStr (str ''Hello  World #1!''))"
proof -
  have h: "nfkc sample_unicode (str ''Hello '' @ 128512 # str '' World #1!'')
          = str ''Hello '' @ 128512 # str '' World #1!''
   \<and> map (category sample_unicode) (str ''Hello '' @ 128512 # str '' World #1!'')
          = [''Lu'', ''Ll'', ''Ll'', ''Ll'', ''Ll'', ''Zs'', ''So'', ''Zs'',
             ''Lu'', ''Ll'', ''Ll'', ''Ll'', ''Ll'', ''Zs'', ''Po'', ''Nd'', ''Po'']"
    by (simp add: sample_unicode_def str_def)
  from remove_special_characters_unicode_filter [of sample_unicode "[]"] h show ?thesis
    by blast
qed

section \<open>Facts about the matcher\<close>

text \<open>
  A pattern without \<^verbatim>\<open>^\<close> and without a lookbehind matches at a position as it
  matches at the start of the rest of the text.
\<close>

fun ctxfree :: "re \<Rightarrow> bool" where
  "ctxfree (Ch p) = True"
| "ctxfree (Seq a b) = (ctxfree a \<and> ctxfree b)"
| "ctxfree (Rep r lo hi g) = ctxfree r"
| "ctxfree (NotAhead r) = ctxfree r"
| "ctxfree (NotBehind p) = False"
| "ctxfree Bol = False"

lemma iter_shift:
  assumes "\<And>y. f (L + y) = map ((+) L) (f' y)"
  shows "iter f g lo hi fuel n (L + x) = map ((+) L) (iter f' g lo hi fuel n x)"
proof (induction fuel arbitrary: n x)
  case 0
  show ?case by simp
next
  case (Suc fuel)
  have flt: "filter (\<lambda>j. L + x < j) (map ((+) L) (f' x)) = map ((+) L) (filter (\<lambda>j. x < j) (f' x))"
    by (induction "f' x") (auto simp: filter_map o_def)
  have more: "concat (map (iter f g lo hi fuel (Suc n)) (filter (\<lambda>j. L + x < j) (f (L + x))))
      = map ((+) L) (concat (map (iter f' g lo hi fuel (Suc n)) (filter (\<lambda>j. x < j) (f' x))))"
    by (simp add: assms flt map_concat o_def Suc.IH)
  show ?case
    using more by (cases g) (simp_all add: Let_def)
qed

lemma ends_shift:
  "ctxfree r \<Longrightarrow> ends r (pre @ s) (length pre + x) = map ((+) (length pre)) (ends r s x)"
proof (induction r arbitrary: x)
  case (Ch p)
  show ?case by (simp add: nth_append)
next
  case (Seq a b)
  then show ?case by (simp add: map_concat o_def)
next
  case (Rep r lo hi g)
  then have "\<And>y. ends r (pre @ s) (length pre + y) = map ((+) (length pre)) (ends r s y)"
    by simp
  from iter_shift [of "ends r (pre @ s)" "length pre" "ends r s", OF this]
  show ?case by simp
next
  case (NotAhead r)
  then show ?case by simp
next
  case (NotBehind p)
  then show ?case by simp
next
  case Bol
  then show ?case by simp
qed

lemma re_scan_shift:
  "ctxfree r \<Longrightarrow> re_scan r (pre @ s) (length pre + x) = re_scan r s x"
proof (induction r s x rule: re_scan.induct)
  case (1 r t i)
  note sh = ends_shift [OF "1.prems", of pre t i]
  have suc: "\<not> length t < i \<Longrightarrow> ends r t i = [] \<Longrightarrow> i < length t \<Longrightarrow>
      re_scan r (pre @ t) (length pre + Suc i) = re_scan r t (Suc i)"
    using "1.IH" "1.prems" by simp
  have suc': "\<And>j js. \<not> length t < i \<Longrightarrow> ends r t i = j # js \<Longrightarrow> \<not> i < j \<Longrightarrow> i < length t \<Longrightarrow>
      re_scan r (pre @ t) (length pre + Suc i) = re_scan r t (Suc i)"
    using "1.IH" "1.prems" by simp
  have jmp: "\<And>j js. \<not> length t < i \<Longrightarrow> ends r t i = j # js \<Longrightarrow> i < j \<Longrightarrow>
      re_scan r (pre @ t) (length pre + j) = re_scan r t j"
    using "1.IH" "1.prems" by simp
  show ?case
  proof (cases "ends r t i")
    case Nil
    with sh suc show ?thesis
      unfolding re_scan.simps [of r "pre @ t" "length pre + i"] re_scan.simps [of r t i]
      by (auto simp: nth_append)
  next
    case (Cons j js)
    with sh suc' [of j js] jmp [of j js] show ?thesis
      unfolding re_scan.simps [of r "pre @ t" "length pre + i"] re_scan.simps [of r t i]
      by (auto simp: nth_append)
  qed
qed

lemma iter_class_greedy:
  assumes "\<And>j. f j = (if j < length t \<and> p (t ! j) then [Suc j] else [])"
  shows "i \<le> length t \<Longrightarrow> fuel = length t - i \<Longrightarrow>
     iter f True lo None fuel n i
       = map ((+) i) (rev [lo - n ..< Suc (length (takeWhile p (drop i t)))])"
proof (induction fuel arbitrary: i n)
  case 0
  then have "drop i t = []" by simp
  then show ?case by (simp add: upt_rec)
next
  case (Suc fuel)
  then have lt: "i < length t" by simp
  then have d: "drop i t = t ! i # drop (Suc i) t"
    by (simp add: Cons_nth_drop_Suc)
  have fi: "f i = (if i < length t \<and> p (t ! i) then [Suc i] else [])"
    by (rule assms)
  show ?case
  proof (cases "p (t ! i)")
    case False
    with lt d show ?thesis by (simp add: fi upt_rec)
  next
    case True
    let ?k = "length (takeWhile p (drop (Suc i) t))"
    have ih: "iter f True lo None fuel (Suc n) (Suc i)
       = map ((+) (Suc i)) (rev [lo - Suc n ..< Suc ?k])"
      using Suc.prems lt by (intro Suc.IH) auto
    have sh: "map ((+) (Suc i)) (rev [lo - Suc n ..< Suc ?k])
       = map ((+) i) (rev [Suc (lo - Suc n) ..< Suc (Suc ?k)])"
      by (simp add: map_Suc_upt [symmetric] rev_map o_def del: upt_Suc)
    have "map ((+) i) (rev [Suc (lo - Suc n) ..< Suc (Suc ?k)]) @ (if lo \<le> n then [i] else [])
       = map ((+) i) (rev [lo - n ..< Suc (Suc ?k)])"
    proof (cases "lo \<le> n")
      case True
      then have "[lo - n ..< Suc (Suc ?k)] = 0 # [Suc (lo - Suc n) ..< Suc (Suc ?k)]"
        using upt_conv_Cons [of 0 "Suc (Suc ?k)"] by simp
      with True show ?thesis by simp
    next
      case False
      then have "Suc (lo - Suc n) = lo - n" by simp
      with False show ?thesis by simp
    qed
    with True lt d ih sh show ?thesis
      by (simp add: fi Let_def del: upt_Suc)
  qed
qed

lemma iter_class_lazy:
  assumes "\<And>j. f j = (if j < length t \<and> p (t ! j) then [Suc j] else [])"
  shows "i \<le> length t \<Longrightarrow> fuel = length t - i \<Longrightarrow>
     iter f False 0 None fuel n i
       = map ((+) i) [0 ..< Suc (length (takeWhile p (drop i t)))]"
proof (induction fuel arbitrary: i n)
  case 0
  then have "drop i t = []" by simp
  then show ?case by simp
next
  case (Suc fuel)
  then have lt: "i < length t" by simp
  then have d: "drop i t = t ! i # drop (Suc i) t"
    by (simp add: Cons_nth_drop_Suc)
  have fi: "f i = (if i < length t \<and> p (t ! i) then [Suc i] else [])"
    by (rule assms)
  show ?case
  proof (cases "p (t ! i)")
    case False
    with lt d show ?thesis by (simp add: fi)
  next
    case True
    let ?k = "length (takeWhile p (drop (Suc i) t))"
    have ih: "iter f False 0 None fuel (Suc n) (Suc i)
       = map ((+) (Suc i)) [0 ..< Suc ?k]"
      using Suc.prems lt by (intro Suc.IH) auto
    have sh: "map ((+) (Suc i)) [0 ..< Suc ?k] = map ((+) i) [Suc 0 ..< Suc (Suc ?k)]"
      by (simp add: map_Suc_upt [symmetric] o_def del: upt_Suc)
    have "[0 ..< Suc (Suc ?k)] = 0 # [Suc 0 ..< Suc (Suc ?k)]"
      using upt_conv_Cons [of 0 "Suc (Suc ?k)"] by simp
    with True lt d ih sh show ?thesis
      by (simp add: fi Let_def del: upt_Suc)
  qed
qed

end
